theory Spec2Isabelle
  imports Main "HOL-Library.Sublist"
begin

section \<open>Coal Log Book Digitizer: the App component and the Gemini client\<close>

text \<open>
  The repository is a single React component (\<^verbatim>\<open>App\<close>, in \<^verbatim>\<open>src/vite.config.ts\<close> from
  line 44 on) and one asynchronous function (\<^verbatim>\<open>processTableImage\<close>, in
  \<^verbatim>\<open>src/unnamed/part_000\<close>). The component's state hooks and refs become one record; each
  handler becomes a function from the record to the record. What a handler obtains from the
  browser (the outcome of \<^verbatim>\<open>getUserMedia\<close>, of \<^verbatim>\<open>fetch\<close>, of \<^verbatim>\<open>FileReader\<close>, of the canvas)
  is a parameter of the handler. An \<^verbatim>\<open>await\<close> is modelled as returning at once: a handler
  runs from its first to its last statement with no other handler in between.

  JavaScript strings are modelled as \<^typ>\<open>string\<close>, one \<^typ>\<open>char\<close> per code unit, which covers
  the code units below 256.
\<close>

subsection \<open>JavaScript values\<close>

text \<open>
  \<^verbatim>\<open>response.json()\<close> and \<^verbatim>\<open>JSON.parse\<close> produce values that the code stores and passes on
  without validating them, so the state holds a dynamically typed value. A number is
  represented by the text that JavaScript's \<^verbatim>\<open>ToString\<close> gives for it.
\<close>

datatype jsval =
    JUndefined
  | JNull
  | JBool bool
  | JNum string
  | JStr string
  | JArr "jsval list"
  | JObj "(string \<times> jsval) list"

text \<open>
  The errors thrown. \<open>NetworkError\<close> is the error with which a rejected \<^verbatim>\<open>fetch\<close> throws; it
  is kept apart from the \<^verbatim>\<open>TypeError\<close> that the code itself raises on a value of the wrong
  kind. \<open>ReactChildError\<close> is the error React throws for a child that is an object.
\<close>

datatype js_error =
    TypeError
  | SyntaxError
  | NetworkError
  | Error string
  | ReactChildError

text \<open>The truth value of a JavaScript value in a condition (\<^verbatim>\<open>ToBoolean\<close>); a number is
  falsy when it prints as \<^verbatim>\<open>0\<close>, \<^verbatim>\<open>-0\<close> or \<^verbatim>\<open>NaN\<close>.\<close>

fun truthy :: "jsval \<Rightarrow> bool" where
  "truthy JUndefined = False"
| "truthy JNull = False"
| "truthy (JBool b) = b"
| "truthy (JNum n) = (n \<noteq> ''0'' \<and> n \<noteq> ''-0'' \<and> n \<noteq> ''NaN'')"
| "truthy (JStr s) = (s \<noteq> [])"
| "truthy (JArr xs) = True"
| "truthy (JObj ps) = True"

text \<open>\<^verbatim>\<open>interface TableData { headers: string[]; rows: string[][] }\<close>\<close>

record TableData =
  headers :: "string list"
  rows :: "string list list"

text \<open>The JavaScript object that a \<^typ>\<open>TableData\<close> is at run time.\<close>

definition table_val :: "TableData \<Rightarrow> jsval" where
  "table_val t =
     JObj [(''headers'', JArr (map JStr (headers t))),
           (''rows'', JArr (map (\<lambda>row. JArr (map JStr row)) (rows t)))]"

subsection \<open>The state of the component\<close>

text \<open>
  A \<^verbatim>\<open>MediaStream\<close> is the list of its tracks, each track an identifier.
  \<^verbatim>\<open>track.stop()\<close> is an effect on the browser: the record keeps the log of these calls,
  in \<open>stopped\<close>, the latest call last.

  \<open>videoRef\<close> and \<open>canvasRef\<close> say whether \<^verbatim>\<open>videoRef.current\<close> and \<^verbatim>\<open>canvasRef.current\<close>
  hold an element (are not null). The pixels of the canvas and the attributes of the video
  element are not modelled.
\<close>

datatype MediaStream = MediaStream (getTracks: "nat list")

record App =
  capturedImage :: "string option"
  isProcessing :: bool
  extractedData :: jsval
  error :: "string option"
  showCamera :: bool
  videoRef :: bool
  canvasRef :: bool
  streamRef :: "MediaStream option"
  stopped :: "nat list"

subsection \<open>Capture controller\<close>

text \<open>
  \<^verbatim>\<open>startCamera\<close> (lines 64-77). The parameter is the outcome of
  \<^verbatim>\<open>navigator.mediaDevices.getUserMedia\<close>: the stream, or \<open>None\<close> when the call throws.
\<close>

definition startCamera :: "MediaStream option \<Rightarrow> App \<Rightarrow> App" where
  "startCamera getUserMedia s =
     (case getUserMedia of
        Some stream \<Rightarrow>
          (let s1 = s\<lparr>streamRef := Some stream\<rparr>
           in if videoRef s1 then s1\<lparr>showCamera := True\<rparr> else s1)
      | None \<Rightarrow> s\<lparr>error := Some ''Unable to access camera. Please check permissions.''\<rparr>)"

text \<open>\<^verbatim>\<open>stopCamera\<close> (lines 79-85).\<close>

definition stopCamera :: "App \<Rightarrow> App" where
  "stopCamera s =
     (let s1 = (case streamRef s of
                  Some stream \<Rightarrow> s\<lparr>stopped := stopped s @ getTracks stream, streamRef := None\<rparr>
                | None \<Rightarrow> s)
      in s1\<lparr>showCamera := False\<rparr>)"

text \<open>
  \<^verbatim>\<open>capturePhoto\<close> (lines 87-103). The parameter is what the canvas gives: \<open>None\<close> when
  \<^verbatim>\<open>canvas.getContext('2d')\<close> returns null, otherwise the data URL that
  \<^verbatim>\<open>canvas.toDataURL('image/jpeg', 0.8)\<close> returns after the frame is drawn.
\<close>

definition capturePhoto :: "string option \<Rightarrow> App \<Rightarrow> App" where
  "capturePhoto canvas s =
     (if videoRef s \<and> canvasRef s then
        (case canvas of
           Some imageData \<Rightarrow> stopCamera (s\<lparr>capturedImage := Some imageData\<rparr>)
         | None \<Rightarrow> s)
      else s)"

text \<open>\<^verbatim>\<open>resetApp\<close> (lines 193-198).\<close>

definition resetApp :: "App \<Rightarrow> App" where
  "resetApp s = stopCamera (s\<lparr>capturedImage := None, extractedData := JNull, error := None\<rparr>)"

subsection \<open>Upload handler\<close>

text \<open>
  \<^verbatim>\<open>handleFileUpload\<close> (lines 105-114). The first parameter is
  \<^verbatim>\<open>FileReader.readAsDataURL\<close>: the data URL passed to \<^verbatim>\<open>onload\<close>, or \<open>None\<close> when the read
  fails and \<^verbatim>\<open>onload\<close> is never called. The second is \<^verbatim>\<open>event.target.files\<close>.
\<close>

record File =
  name :: string
  type :: string
  bytes :: "nat list"

definition handleFileUpload :: "(File \<Rightarrow> string option) \<Rightarrow> File list \<Rightarrow> App \<Rightarrow> App" where
  "handleFileUpload readAsDataURL files s =
     (case files of
        [] \<Rightarrow> s
      | file # _ \<Rightarrow>
          if prefix ''image/'' (type file) then
            (case readAsDataURL file of
               Some result \<Rightarrow> s\<lparr>capturedImage := Some result\<rparr>
             | None \<Rightarrow> s)
          else s)"

subsection \<open>Strings and property access\<close>

text \<open>\<^verbatim>\<open>String.prototype.split\<close> with a separator of one character.\<close>

fun split_js :: "char \<Rightarrow> string \<Rightarrow> string list" where
  "split_js sep [] = [[]]"
| "split_js sep (c # cs) =
     (if c = sep then [] # split_js sep cs
      else (case split_js sep cs of
              x # xs \<Rightarrow> (c # x) # xs
            | [] \<Rightarrow> [[c]]))"

text \<open>
  \<^verbatim>\<open>Array.prototype.join\<close> on an array of strings, as the language standard gives it: the
  result starts as the first element, and the loop appends the separator and the next
  element.
\<close>

fun join_loop :: "string \<Rightarrow> string \<Rightarrow> string list \<Rightarrow> string" where
  "join_loop sep R [] = R"
| "join_loop sep R (x # xs) = join_loop sep (R @ sep @ x) xs"

definition join_js :: "string \<Rightarrow> string list \<Rightarrow> string" where
  "join_js sep xs = (case xs of [] \<Rightarrow> [] | x # rest \<Rightarrow> join_loop sep x rest)"

text \<open>
  \<^verbatim>\<open>ToString\<close>, on the values that \<^verbatim>\<open>JSON.parse\<close> produces. An array is converted by
  \<^verbatim>\<open>Array.prototype.join\<close> with a comma, where an element that is undefined or null gives
  the empty string and any other element is converted in turn. An object is converted by
  its \<^verbatim>\<open>toString\<close>: the inherited one gives \<^verbatim>\<open>[object Object]\<close>, but an object that has a
  key \<^verbatim>\<open>toString\<close> of its own hides it with a value that cannot be called, and the
  conversion throws a \<^verbatim>\<open>TypeError\<close>.
\<close>

fun to_string :: "jsval \<Rightarrow> js_error + string"
  and join_elements :: "jsval list \<Rightarrow> js_error + string list" where
  "to_string JUndefined = Inr ''undefined''"
| "to_string JNull = Inr ''null''"
| "to_string (JBool b) = Inr (if b then ''true'' else ''false'')"
| "to_string (JNum n) = Inr n"
| "to_string (JStr s) = Inr s"
| "to_string (JArr xs) =
     (case join_elements xs of
        Inl e \<Rightarrow> Inl e
      | Inr strs \<Rightarrow> Inr (join_js '','' strs))"
| "to_string (JObj ps) =
     (case map_of ps ''toString'' of
        Some v \<Rightarrow> Inl TypeError
      | None \<Rightarrow> Inr ''[object Object]'')"
| "join_elements [] = Inr []"
| "join_elements (x # xs) =
     (case (if x = JUndefined \<or> x = JNull then Inr [] else to_string x) of
        Inl e \<Rightarrow> Inl e
      | Inr str \<Rightarrow>
          (case join_elements xs of
             Inl e \<Rightarrow> Inl e
           | Inr strs \<Rightarrow> Inr (str # strs)))"

text \<open>
  \<open>get_prop v k\<close> is \<^verbatim>\<open>v.k\<close>, for the property names the program reads (\<^verbatim>\<open>tableData\<close>,
  \<^verbatim>\<open>headers\<close>, \<^verbatim>\<open>rows\<close>, \<^verbatim>\<open>candidates\<close>, \<^verbatim>\<open>content\<close>, \<^verbatim>\<open>parts\<close>, \<^verbatim>\<open>text\<close>), none of which a
  string, a number, an array or \<^verbatim>\<open>Object.prototype\<close> has of its own: reading a property
  of undefined or null throws a \<^verbatim>\<open>TypeError\<close>, a property that is absent is undefined.
  An object lists each of its keys once.
\<close>

fun get_prop :: "jsval \<Rightarrow> string \<Rightarrow> js_error + jsval" where
  "get_prop JUndefined k = Inl TypeError"
| "get_prop JNull k = Inl TypeError"
| "get_prop (JObj ps) k = Inr (case map_of ps k of Some v \<Rightarrow> v | None \<Rightarrow> JUndefined)"
| "get_prop v k = Inr JUndefined"

text \<open>\<open>get_index0 v\<close> is \<^verbatim>\<open>v[0]\<close>.\<close>

fun get_index0 :: "jsval \<Rightarrow> js_error + jsval" where
  "get_index0 JUndefined = Inl TypeError"
| "get_index0 JNull = Inl TypeError"
| "get_index0 (JArr xs) = Inr (case xs of [] \<Rightarrow> JUndefined | x # _ \<Rightarrow> x)"
| "get_index0 (JStr s) = Inr (case s of [] \<Rightarrow> JUndefined | c # _ \<Rightarrow> JStr [c])"
| "get_index0 (JObj ps) = Inr (case map_of ps ''0'' of Some v \<Rightarrow> v | None \<Rightarrow> JUndefined)"
| "get_index0 v = Inr JUndefined"

text \<open>
  \<open>call_join v sep\<close> is \<^verbatim>\<open>v.join(sep)\<close>: only an array has the method; on undefined and
  null the property access throws, on any other value \<^verbatim>\<open>v.join\<close> is not a function and
  the call throws. The call also throws when the conversion of an element does.
\<close>

fun call_join :: "jsval \<Rightarrow> string \<Rightarrow> js_error + string" where
  "call_join (JArr xs) sep =
     (case join_elements xs of
        Inl e \<Rightarrow> Inl e
      | Inr strs \<Rightarrow> Inr (join_js sep strs))"
| "call_join v sep = Inl TypeError"

subsection \<open>HTTP\<close>

text \<open>
  A request as the code builds it; \<open>payload\<close> is the object given to \<^verbatim>\<open>JSON.stringify\<close>
  (\<open>JUndefined\<close> when the request has no body). A response has its status, its body as
  \<^verbatim>\<open>response.text()\<close> gives it, and what \<^verbatim>\<open>response.json()\<close> resolves to, \<open>None\<close> when it
  rejects because the body is not JSON. \<^verbatim>\<open>fetch\<close> either rejects (a network failure) or
  resolves to a response.
\<close>

record Request =
  url :: string
  http_method :: string
  content_type :: string
  payload :: jsval

record Response =
  status :: nat
  response_text :: string
  response_json :: "jsval option"

definition ok :: "Response \<Rightarrow> bool" where
  "ok r = (200 \<le> status r \<and> status r \<le> 299)"

datatype fetch_outcome = Rejected | Resolved Response

subsection \<open>Extraction client\<close>

text \<open>
  \<^verbatim>\<open>processImage\<close> (lines 116-150). \<open>process_table_request\<close> is the request of lines
  126-135: \<^verbatim>\<open>capturedImage.split(',')[1]\<close> is undefined when the data URL has no comma, and
  \<^verbatim>\<open>JSON.stringify\<close> then leaves the \<^verbatim>\<open>image\<close> property out.
\<close>

definition extraction_prompt :: string where
  "extraction_prompt = ''Extract all table data from this coal log book image. Return the data in JSON format with 'headers' array and 'rows' array. Each row should be an array of cell values. Focus on coal-related data like date, shift, coal type, quantity, location, etc.''"

definition process_table_request :: "string \<Rightarrow> Request" where
  "process_table_request capturedImage' =
     (let base64Data = (case split_js CHR '','' capturedImage' of
                          _ # x # _ \<Rightarrow> Some x
                        | _ \<Rightarrow> None)
      in \<lparr>url = ''/api/process-table'',
          http_method = ''POST'',
          content_type = ''application/json'',
          payload = JObj ((case base64Data of
                             Some b \<Rightarrow> [(''image'', JStr b)]
                           | None \<Rightarrow> [])
                          @ [(''prompt'', JStr extraction_prompt)])\<rparr>)"

text \<open>
  The body of the \<^verbatim>\<open>try\<close> block (lines 124-142), given the outcome of the \<^verbatim>\<open>fetch\<close> of
  \<open>process_table_request\<close>: the value thrown, or the value handed to \<^verbatim>\<open>setExtractedData\<close>.
\<close>

definition processImage_try :: "fetch_outcome \<Rightarrow> js_error + jsval" where
  "processImage_try fetch =
     (case fetch of
        Rejected \<Rightarrow> Inl NetworkError
      | Resolved response \<Rightarrow>
          if \<not> ok response then Inl (Error ''Failed to process image'')
          else (case response_json response of
                  None \<Rightarrow> Inl SyntaxError
                | Some result \<Rightarrow> get_prop result ''tableData''))"

text \<open>
  The handler: the guard of line 117 (null and the empty string are falsy), the two
  updates before the \<^verbatim>\<open>try\<close>, the \<^verbatim>\<open>catch\<close> and the \<^verbatim>\<open>finally\<close>. The output of
  \<^verbatim>\<open>console.error\<close> is not modelled.
\<close>

definition processImage :: "fetch_outcome \<Rightarrow> App \<Rightarrow> App" where
  "processImage fetch s =
     (case capturedImage s of
        None \<Rightarrow> s
      | Some img \<Rightarrow>
          if img = [] then s
          else
            (let s1 = s\<lparr>isProcessing := True, error := None\<rparr>;
                 s2 = (case processImage_try fetch of
                         Inr tableData \<Rightarrow> s1\<lparr>extractedData := tableData\<rparr>
                       | Inl err \<Rightarrow>
                           s1\<lparr>error := Some ''Failed to process image. Please try again.''\<rparr>)
             in s2\<lparr>isProcessing := False\<rparr>))"

subsection \<open>CSV export\<close>

text \<open>
  \<^verbatim>\<open>downloadCSV\<close> (lines 152-169). The parameter is \<^verbatim>\<open>new Date().toISOString()\<close>. The
  result is the error thrown, or \<open>None\<close> after the early return of line 153, or the file
  handed to the browser: the \<^verbatim>\<open>download\<close> attribute of the anchor, and the type and the
  content of the blob.
\<close>

record Download =
  download :: string
  blob_type :: string
  blob_content :: string

fun rows_map_join :: "jsval list \<Rightarrow> js_error + string list" where
  "rows_map_join [] = Inr []"
| "rows_map_join (row # rest) =
     (case call_join row '','' of
        Inl e \<Rightarrow> Inl e
      | Inr line \<Rightarrow>
          (case rows_map_join rest of
             Inl e \<Rightarrow> Inl e
           | Inr lines \<Rightarrow> Inr (line # lines)))"

text \<open>\<open>call_map_join v\<close> is \<^verbatim>\<open>v.map(row => row.join(','))\<close>; only an array has \<^verbatim>\<open>map\<close>.\<close>

fun call_map_join :: "jsval \<Rightarrow> js_error + string list" where
  "call_map_join (JArr rs) = rows_map_join rs"
| "call_map_join v = Inl TypeError"

definition csvContent :: "jsval \<Rightarrow> js_error + string" where
  "csvContent data =
     (case get_prop data ''headers'' of
        Inl e \<Rightarrow> Inl e
      | Inr hs \<Rightarrow>
          (case call_join hs '','' of
             Inl e \<Rightarrow> Inl e
           | Inr header_line \<Rightarrow>
               (case get_prop data ''rows'' of
                  Inl e \<Rightarrow> Inl e
                | Inr rs \<Rightarrow>
                    (case call_map_join rs of
                       Inl e \<Rightarrow> Inl e
                     | Inr lines \<Rightarrow> Inr (join_js ''\<newline>'' (header_line # lines))))))"

definition iso_date :: "string \<Rightarrow> string" where
  "iso_date now = (case split_js CHR ''T'' now of x # _ \<Rightarrow> x | [] \<Rightarrow> ''undefined'')"

definition downloadCSV :: "string \<Rightarrow> App \<Rightarrow> js_error + Download option" where
  "downloadCSV now s =
     (if \<not> truthy (extractedData s) then Inr None
      else (case csvContent (extractedData s) of
              Inl e \<Rightarrow> Inl e
            | Inr content \<Rightarrow>
                Inr (Some \<lparr>download = ''coal-log-'' @ iso_date now @ ''.csv'',
                           blob_type = ''text/csv'',
                           blob_content = content\<rparr>)))"

text \<open>
  The export as the specification words it: the headers joined with commas, each row joined
  with commas, the lines joined with newlines, every cell copied as it is.
\<close>

fun spec_join :: "string \<Rightarrow> string list \<Rightarrow> string" where
  "spec_join sep [] = []"
| "spec_join sep [x] = x"
| "spec_join sep (x # y # ys) = x @ sep @ spec_join sep (y # ys)"

definition spec_csv :: "TableData \<Rightarrow> string" where
  "spec_csv t = spec_join ''\<newline>'' (spec_join '','' (headers t) # map (spec_join '','') (rows t))"

subsection \<open>The Gemini client\<close>

text \<open>
  The regular expression \<^verbatim>\<open>/GEMINI_API_KEY=(.+)/\<close> of line 9: \<^verbatim>\<open>match\<close> takes the
  leftmost position where the literal is followed by at least one character that is not a
  line terminator, and the group is the longest run of such characters from there. The
  result is the group, \<^verbatim>\<open>apiKeyMatch[1]\<close>, or \<open>None\<close> for null.
\<close>

definition is_line_terminator :: "char \<Rightarrow> bool" where
  "is_line_terminator c = (c = CHR 0x0A \<or> c = CHR 0x0D)"

definition key_literal :: string where
  "key_literal = ''GEMINI_API_KEY=''"

definition match_here :: "string \<Rightarrow> string option" where
  "match_here s =
     (if prefix key_literal s then
        (let grp = takeWhile (\<lambda>c. \<not> is_line_terminator c) (drop (length key_literal) s)
         in if grp = [] then None else Some grp)
      else None)"

fun api_key_match :: "string \<Rightarrow> string option" where
  "api_key_match [] = None"
| "api_key_match (c # cs) =
     (case match_here (c # cs) of
        Some grp \<Rightarrow> Some grp
      | None \<Rightarrow> api_key_match cs)"

text \<open>\<^verbatim>\<open>String.prototype.trim\<close>: white space and line terminators, at both ends.\<close>

definition is_white_space :: "char \<Rightarrow> bool" where
  "is_white_space c =
     (c = CHR 0x09 \<or> c = CHR 0x0A \<or> c = CHR 0x0B \<or> c = CHR 0x0C \<or> c = CHR 0x0D
      \<or> c = CHR 0x20 \<or> c = CHR 0xA0)"

definition trim :: "string \<Rightarrow> string" where
  "trim s = rev (dropWhile is_white_space (rev (dropWhile is_white_space s)))"

definition api_key_request :: Request where
  "api_key_request =
     \<lparr>url = ''/.api_key'', http_method = ''GET'', content_type = [], payload = JUndefined\<rparr>"

definition gemini_request :: "string \<Rightarrow> string \<Rightarrow> string \<Rightarrow> Request" where
  "gemini_request apiKey imageBase64 prompt =
     \<lparr>url = ''https://generativelanguage.googleapis.com/v1beta/models/gemini-1.5-flash:generateContent?key='' @ apiKey,
      http_method = ''POST'',
      content_type = ''application/json'',
      payload =
        JObj [(''contents'',
          JArr [JObj [(''parts'',
            JArr [JObj [(''text'', JStr prompt)],
                  JObj [(''inline_data'',
                    JObj [(''mime_type'', JStr ''image/jpeg''),
                          (''data'', JStr imageBase64)])]])]])]\<rparr>"

text \<open>\<^verbatim>\<open>result.candidates[0].content.parts[0].text\<close> (line 43).\<close>

definition model_text :: "jsval \<Rightarrow> js_error + jsval" where
  "model_text result =
     (case get_prop result ''candidates'' of Inl e \<Rightarrow> Inl e | Inr candidates \<Rightarrow>
      (case get_index0 candidates of Inl e \<Rightarrow> Inl e | Inr candidate \<Rightarrow>
       (case get_prop candidate ''content'' of Inl e \<Rightarrow> Inl e | Inr content \<Rightarrow>
        (case get_prop content ''parts'' of Inl e \<Rightarrow> Inl e | Inr parts \<Rightarrow>
         (case get_index0 parts of Inl e \<Rightarrow> Inl e | Inr part \<Rightarrow>
            get_prop part ''text'')))))"

text \<open>
  Lines 38-48, given the outcome of the second \<^verbatim>\<open>fetch\<close>. \<open>JSON_parse\<close> is \<^verbatim>\<open>JSON.parse\<close>,
  \<open>None\<close> when it throws a \<^verbatim>\<open>SyntaxError\<close>; its argument is converted to a string first,
  which can throw as well.
\<close>

definition gemini_result :: "(string \<Rightarrow> jsval option) \<Rightarrow> fetch_outcome \<Rightarrow> js_error + jsval" where
  "gemini_result JSON_parse fetch =
     (case fetch of
        Rejected \<Rightarrow> Inl NetworkError
      | Resolved geminiResponse \<Rightarrow>
          if \<not> ok geminiResponse then Inl (Error ''Failed to process image with Gemini API'')
          else (case response_json geminiResponse of
                  None \<Rightarrow> Inl SyntaxError
                | Some result \<Rightarrow>
                    (case model_text result of
                       Inl e \<Rightarrow> Inl e
                     | Inr content \<Rightarrow>
                         (case to_string content of
                            Inl e \<Rightarrow> Inl e
                          | Inr text \<Rightarrow>
                              (case JSON_parse text of
                                 None \<Rightarrow> Inl SyntaxError
                               | Some tableData \<Rightarrow>
                                   Inr (JObj [(''tableData'', tableData)]))))))"

text \<open>
  \<^verbatim>\<open>processTableImage\<close> (lines 4-53). \<open>fetch_key\<close> is the outcome of \<^verbatim>\<open>fetch('/.api_key')\<close>
  and \<open>fetch_gemini\<close> the outcome of the call of the Gemini endpoint, should the function
  make it. The result is the value returned or the error thrown (the \<^verbatim>\<open>catch\<close> block throws
  again what it caught), together with the requests that were sent, in order.
\<close>

definition processTableImage ::
  "(string \<Rightarrow> jsval option) \<Rightarrow> fetch_outcome \<Rightarrow> fetch_outcome \<Rightarrow> string \<Rightarrow> string
     \<Rightarrow> (js_error + jsval) \<times> Request list" where
  "processTableImage JSON_parse fetch_key fetch_gemini imageBase64 prompt =
     (case fetch_key of
        Rejected \<Rightarrow> (Inl NetworkError, [api_key_request])
      | Resolved response \<Rightarrow>
          (case api_key_match (response_text response) of
             None \<Rightarrow>
               (Inl (Error ''Gemini API key not found in .api_key file''), [api_key_request])
           | Some grp \<Rightarrow>
               (let apiKey = trim grp
                in (gemini_result JSON_parse fetch_gemini,
                    [api_key_request, gemini_request apiKey imageBase64 prompt]))))"

subsection \<open>The rendered controls\<close>

text \<open>
  The table of lines 403-458. \<^verbatim>\<open>{extractedData && ...}\<close> shows no table for a falsy value.
  Otherwise \<^verbatim>\<open>extractedData.headers.map\<close>, \<^verbatim>\<open>extractedData.rows.map\<close> and \<^verbatim>\<open>row.map\<close> for
  each row are called while the JSX is evaluated, and each throws a \<^verbatim>\<open>TypeError\<close> on a
  value that is not an array. The cells are then children of \<^verbatim>\<open>th\<close> and \<^verbatim>\<open>td\<close> elements:
  React accepts a string, a number, a boolean, null, undefined and an array of such
  children, and throws an error (\<open>ReactChildError\<close>) for an object.
\<close>

fun valid_child :: "jsval \<Rightarrow> bool" where
  "valid_child (JObj ps) = False"
| "valid_child (JArr xs) = list_all valid_child xs"
| "valid_child v = True"

fun rows_cells :: "jsval list \<Rightarrow> js_error + jsval list list" where
  "rows_cells [] = Inr []"
| "rows_cells (JArr cells # rest) =
     (case rows_cells rest of
        Inl e \<Rightarrow> Inl e
      | Inr others \<Rightarrow> Inr (cells # others))"
| "rows_cells (row # rest) = Inl TypeError"

definition table_view :: "jsval \<Rightarrow> js_error + (jsval list \<times> jsval list list) option" where
  "table_view data =
     (if \<not> truthy data then Inr None
      else (case get_prop data ''headers'' of
              Inl e \<Rightarrow> Inl e
            | Inr (JArr hs) \<Rightarrow>
                (case get_prop data ''rows'' of
                   Inl e \<Rightarrow> Inl e
                 | Inr (JArr rs) \<Rightarrow>
                     (case rows_cells rs of
                        Inl e \<Rightarrow> Inl e
                      | Inr cells \<Rightarrow>
                          if list_all valid_child hs \<and> list_all (list_all valid_child) cells
                          then Inr (Some (hs, cells))
                          else Inl ReactChildError)
                 | Inr v \<Rightarrow> Inl TypeError)
            | Inr v \<Rightarrow> Inl TypeError))"

text \<open>
  What the user can do in a state, from the JSX of lines 200-505. After every handler the
  component renders again. The component has no error boundary: when the table throws, the
  error is caught by nothing and React removes the whole component. Otherwise the refs are
  set: the \<^verbatim>\<open>video\<close> element that \<open>videoRef\<close> points to exists only inside
  \<^verbatim>\<open>{showCamera && ...}\<close> (lines 286-296), the canvas always (line 501).
\<close>

definition render :: "App \<Rightarrow> js_error + App" where
  "render s =
     (case table_view (extractedData s) of
        Inl e \<Rightarrow> Inl e
      | Inr view \<Rightarrow> Inr (s\<lparr>videoRef := showCamera s, canvasRef := True\<rparr>))"

text \<open>The state after the first render.\<close>

definition App_init :: App where
  "App_init =
     \<lparr>capturedImage = None, isProcessing = False, extractedData = JNull,
      error = None, showCamera = False, videoRef = False, canvasRef = True,
      streamRef = None, stopped = []\<rparr>"

datatype event =
    TakePhoto "MediaStream option"
  | Capture "string option"
  | Cancel
  | UploadImage "File \<Rightarrow> string option" "File list"
  | ExtractTableData fetch_outcome
  | StartOver

text \<open>
  The buttons \<^emph>\<open>Take Photo\<close> and \<^emph>\<open>Upload Image\<close> are inside
  \<^verbatim>\<open>{!capturedImage && !showCamera && ...}\<close> (line 231), \<^emph>\<open>Capture\<close> and \<^emph>\<open>Cancel\<close> inside
  \<^verbatim>\<open>{showCamera && ...}\<close> (line 286), \<^emph>\<open>Extract Table Data\<close> and \<^emph>\<open>Start Over\<close> inside
  \<^verbatim>\<open>{capturedImage && ...}\<close> (line 343), the former disabled while \<open>isProcessing\<close>.
  \<^emph>\<open>Download CSV\<close> and \<^emph>\<open>Add to Database\<close> (lines 461 and 480) are not events here: neither
  reads or writes the camera fields, and \<^verbatim>\<open>addToDatabase\<close> writes the error only.
\<close>

definition has_image :: "App \<Rightarrow> bool" where
  "has_image s = (case capturedImage s of None \<Rightarrow> False | Some img \<Rightarrow> img \<noteq> [])"

fun shown :: "App \<Rightarrow> event \<Rightarrow> bool" where
  "shown s (TakePhoto g) = (\<not> has_image s \<and> \<not> showCamera s)"
| "shown s (UploadImage r fs) = (\<not> has_image s \<and> \<not> showCamera s)"
| "shown s (Capture c) = showCamera s"
| "shown s Cancel = showCamera s"
| "shown s (ExtractTableData f) = (has_image s \<and> \<not> isProcessing s)"
| "shown s StartOver = has_image s"

fun handler :: "event \<Rightarrow> App \<Rightarrow> App" where
  "handler (TakePhoto g) = startCamera g"
| "handler (UploadImage r fs) = handleFileUpload r fs"
| "handler (Capture c) = capturePhoto c"
| "handler Cancel = stopCamera"
| "handler (ExtractTableData f) = processImage f"
| "handler StartOver = resetApp"

text \<open>
  A session: the events in order, \<open>None\<close> when one of them is on a control not shown, or
  when the render after one of them throws, which leaves no control at all.
\<close>

fun session :: "App \<Rightarrow> event list \<Rightarrow> App option" where
  "session s [] = Some s"
| "session s (e # es) =
     (if shown s e then
        (case render (handler e s) of
           Inr s' \<Rightarrow> session s' es
         | Inl err \<Rightarrow> None)
      else None)"

section \<open>Properties\<close>

subsection \<open>CSV export\<close>

lemma join_loop_concat: "join_loop sep R xs = R @ concat (map ((@) sep) xs)"
  by (induction xs arbitrary: R) simp_all

lemma spec_join_concat: "spec_join sep (x # xs) = x @ concat (map ((@) sep) xs)"
  by (induction xs arbitrary: x) simp_all

lemma join_js_spec_join: "join_js sep xs = spec_join sep xs"
  by (cases xs) (simp_all add: join_js_def join_loop_concat spec_join_concat)

lemma join_elements_JStr: "join_elements (map JStr xs) = Inr xs"
  by (induction xs) simp_all

lemma rows_map_join_strings:
  "rows_map_join (map (\<lambda>row. JArr (map JStr row)) rs) = Inr (map (spec_join '','') rs)"
  by (induction rs) (simp_all add: join_elements_JStr join_js_spec_join)

lemma csvContent_table_val: "csvContent (table_val t) = Inr (spec_csv t)"
  by (simp add: csvContent_def table_val_def spec_csv_def join_elements_JStr
      join_js_spec_join rows_map_join_strings)

text \<open>
  Claim C1. On a state whose extracted data is a \<^typ>\<open>TableData\<close>, \<^verbatim>\<open>downloadCSV\<close> throws
  nothing and hands the browser a file whose content is the export as the specification
  words it: headers joined with commas, each row joined with commas, the lines joined with
  newlines. For the table with headers \<^verbatim>\<open>A\<close>, \<^verbatim>\<open>B\<close> and rows \<^verbatim>\<open>1\<close>, \<^verbatim>\<open>2\<close> and \<^verbatim>\<open>3\<close>, \<^verbatim>\<open>4\<close>
  the content is \<^verbatim>\<open>A,B\n1,2\n3,4\<close>. A comma or a newline inside a cell is copied as it is,
  with no quotes around the cell.
\<close>

theorem downloadCSV_joins_cells:
  "downloadCSV now (s\<lparr>extractedData := table_val t\<rparr>) =
     Inr (Some \<lparr>download = ''coal-log-'' @ iso_date now @ ''.csv'',
                blob_type = ''text/csv'',
                blob_content = spec_csv t\<rparr>)
   \<and> csvContent (table_val \<lparr>headers = [''A'', ''B''], rows = [[''1'', ''2''], [''3'', ''4'']]\<rparr>)
       = Inr ''A,B\<newline>1,2\<newline>3,4''
   \<and> csvContent (table_val \<lparr>headers = [''a,b''], rows = [[''x\<newline>y'']]\<rparr>)
       = Inr ''a,b\<newline>x\<newline>y''"
proof -
  have "truthy (table_val t)"
    by (simp add: table_val_def)
  then have "downloadCSV now (s\<lparr>extractedData := table_val t\<rparr>) =
     Inr (Some \<lparr>download = ''coal-log-'' @ iso_date now @ ''.csv'',
                blob_type = ''text/csv'',
                blob_content = spec_csv t\<rparr>)"
    by (simp add: downloadCSV_def csvContent_table_val)
  then show ?thesis
    by (simp add: csvContent_table_val spec_csv_def)
qed

subsection \<open>Camera\<close>

text \<open>
  Claim C10. \<^verbatim>\<open>stopCamera\<close> is idempotent: after one call the stream reference is null and
  the camera view is hidden, and a second call returns the state it was given, so it stops
  no track.
\<close>

theorem stopCamera_idempotent:
  "streamRef (stopCamera s) = None \<and> \<not> showCamera (stopCamera s)
   \<and> stopCamera (stopCamera s) = stopCamera s
   \<and> stopped (stopCamera (stopCamera s)) = stopped (stopCamera s)"
  by (simp add: stopCamera_def split: option.splits)

text \<open>
  Claim C6. When \<^verbatim>\<open>getUserMedia\<close> throws, \<^verbatim>\<open>startCamera\<close> sets the error message and
  changes nothing else: the camera view is as hidden as it was, and the captured image,
  the extracted data and the stream reference are the ones before the call.
\<close>

theorem startCamera_denied:
  "startCamera None s = s\<lparr>error := Some ''Unable to access camera. Please check permissions.''\<rparr>
   \<and> showCamera (startCamera None s) = showCamera s
   \<and> capturedImage (startCamera None s) = capturedImage s
   \<and> extractedData (startCamera None s) = extractedData s
   \<and> streamRef (startCamera None s) = streamRef s"
  by (simp add: startCamera_def)

text \<open>
  What \<^verbatim>\<open>resetApp\<close> writes: the three fields are null, the stream reference is null, the
  camera view is hidden, and the tracks stopped are those of the stream that the stream
  reference held.
\<close>

lemma resetApp_clears:
  "capturedImage (resetApp s) = None \<and> extractedData (resetApp s) = JNull
   \<and> error (resetApp s) = None \<and> streamRef (resetApp s) = None
   \<and> \<not> showCamera (resetApp s)
   \<and> stopped (resetApp s)
       = stopped s @ (case streamRef s of Some stream \<Rightarrow> getTracks stream | None \<Rightarrow> [])"
  by (simp add: resetApp_def stopCamera_def split: option.splits)

subsection \<open>Upload\<close>

text \<open>
  Claim C7, as amended. A selected file whose MIME type does not start with \<^verbatim>\<open>image/\<close>
  leaves the whole state as it was: no captured image is set and no error message. A file
  whose type starts with \<^verbatim>\<open>image/\<close> is given to the reader: when the read completes, its
  data URL is stored as the captured image; when the read fails, \<^verbatim>\<open>onload\<close> is not called
  and no other handler is set, so the state is as it was. \<^verbatim>\<open>capturePhoto\<close> writes the data
  URL of the canvas to the same field, when the video and canvas elements exist.
\<close>

theorem handleFileUpload_by_type:
  "(\<not> prefix ''image/'' (type f) \<longrightarrow> handleFileUpload readAsDataURL (f # rest) s = s)
   \<and> (prefix ''image/'' (type f) \<and> readAsDataURL f = Some dataURL \<longrightarrow>
        handleFileUpload readAsDataURL (f # rest) s = s\<lparr>capturedImage := Some dataURL\<rparr>)
   \<and> (prefix ''image/'' (type f) \<and> readAsDataURL f = None \<longrightarrow>
        handleFileUpload readAsDataURL (f # rest) s = s)
   \<and> capturedImage (capturePhoto (Some dataURL) s)
       = (if videoRef s \<and> canvasRef s then Some dataURL else capturedImage s)"
  by (simp add: handleFileUpload_def capturePhoto_def stopCamera_def split: option.splits)

theorem handleFileUpload_by_type_witness:
  "handleFileUpload (\<lambda>f. Some (''data:'' @ type f @ '';base64,AAAA''))
      [\<lparr>name = ''notes.txt'', type = ''text/plain'', bytes = [0, 0, 0]\<rparr>] App_init = App_init
   \<and> handleFileUpload (\<lambda>f. Some (''data:'' @ type f @ '';base64,AAAA''))
      [\<lparr>name = ''log.png'', type = ''image/png'', bytes = [0, 0, 0]\<rparr>] App_init
     = App_init\<lparr>capturedImage := Some ''data:image/png;base64,AAAA''\<rparr>
   \<and> handleFileUpload (\<lambda>f. None)
      [\<lparr>name = ''log.png'', type = ''image/png'', bytes = [0, 0, 0]\<rparr>] App_init = App_init
   \<and> capturedImage (capturePhoto (Some ''data:image/jpeg;base64,AAAA'') App_init) = None"
proof -
  let ?rd = "\<lambda>f. Some (''data:'' @ type f @ '';base64,AAAA'')"
  let ?no = "\<lambda>f::File. None :: string option"
  let ?txt = "\<lparr>name = ''notes.txt'', type = ''text/plain'', bytes = [0, 0, 0]\<rparr>"
  let ?png = "\<lparr>name = ''log.png'', type = ''image/png'', bytes = [0, 0, 0]\<rparr>"
  have a: "\<not> prefix ''image/'' (type ?txt)" by simp
  have b: "prefix ''image/'' (type ?png) \<and> ?rd ?png = Some ''data:image/png;base64,AAAA''"
    by simp
  have c: "prefix ''image/'' (type ?png) \<and> ?no ?png = None"
    by simp
  from a have 1: "handleFileUpload ?rd [?txt] App_init = App_init"
    using handleFileUpload_by_type [where f = ?txt and readAsDataURL = ?rd and rest = "[]"
        and s = App_init] by blast
  from b have 2: "handleFileUpload ?rd [?png] App_init
     = App_init\<lparr>capturedImage := Some ''data:image/png;base64,AAAA''\<rparr>"
    using handleFileUpload_by_type [where f = ?png and readAsDataURL = ?rd and rest = "[]"
        and s = App_init and dataURL = "''data:image/png;base64,AAAA''"]
    by blast
  from c have 3: "handleFileUpload ?no [?png] App_init = App_init"
    using handleFileUpload_by_type [where f = ?png and readAsDataURL = ?no and rest = "[]"
        and s = App_init] by blast
  have 4: "capturedImage (capturePhoto (Some ''data:image/jpeg;base64,AAAA'') App_init) = None"
    using handleFileUpload_by_type [where s = App_init
        and dataURL = "''data:image/jpeg;base64,AAAA''"]
    by (simp add: App_init_def)
  from 1 2 3 4 show ?thesis by blast
qed

text \<open>
  Claim C7 as stated fails: an image file whose read fails is not stored, and nothing is
  reported.
\<close>

theorem unread_image_is_dropped:
  "handleFileUpload (map_of [])
      [\<lparr>name = ''log.png'', type = ''image/png'', bytes = [137, 80, 78, 71]\<rparr>] App_init
     = App_init
   \<and> capturedImage (handleFileUpload (map_of [])
      [\<lparr>name = ''log.png'', type = ''image/png'', bytes = [137, 80, 78, 71]\<rparr>] App_init) = None
   \<and> error (handleFileUpload (map_of [])
      [\<lparr>name = ''log.png'', type = ''image/png'', bytes = [137, 80, 78, 71]\<rparr>] App_init) = None"
  by (simp add: handleFileUpload_def App_init_def)

subsection \<open>Extraction\<close>

text \<open>
  Claim C2. With a captured image present (not null and not the empty string), when the
  request fails or the response has a status outside 200-299, \<^verbatim>\<open>processImage\<close> ends with
  the error message set, a message that is not empty, and with the extracted data it
  started with; apart from the error, only \<open>isProcessing\<close> is written, to false.
\<close>

theorem processImage_failure:
  assumes "capturedImage s = Some img" and "img \<noteq> []"
    and "fetch = Rejected \<or> (\<exists>response. fetch = Resolved response \<and> \<not> ok response)"
  shows "processImage fetch s =
           s\<lparr>error := Some ''Failed to process image. Please try again.'', isProcessing := False\<rparr>
         \<and> error (processImage fetch s) \<noteq> None \<and> error (processImage fetch s) \<noteq> Some []
         \<and> extractedData (processImage fetch s) = extractedData s"
  using assms by (auto simp add: processImage_def processImage_try_def)

theorem processImage_failure_witness:
  "error (processImage (Resolved \<lparr>status = 500, response_text = ''Internal Server Error'', response_json = None\<rparr>)
           (App_init\<lparr>capturedImage := Some ''data:image/jpeg;base64,AAAA''\<rparr>))
     = Some ''Failed to process image. Please try again.''
   \<and> extractedData (processImage (Resolved \<lparr>status = 500, response_text = ''Internal Server Error'', response_json = None\<rparr>)
           (App_init\<lparr>capturedImage := Some ''data:image/jpeg;base64,AAAA''\<rparr>)) = JNull
   \<and> extractedData (processImage Rejected
           (App_init\<lparr>capturedImage := Some ''data:image/jpeg;base64,AAAA'', extractedData := table_val \<lparr>headers = [''A''], rows = []\<rparr>\<rparr>))
       = table_val \<lparr>headers = [''A''], rows = []\<rparr>"
proof -
  let ?r = "\<lparr>status = 500, response_text = ''Internal Server Error'', response_json = None\<rparr>"
  let ?s = "App_init\<lparr>capturedImage := Some ''data:image/jpeg;base64,AAAA''\<rparr>"
  let ?s' = "App_init\<lparr>capturedImage := Some ''data:image/jpeg;base64,AAAA'', extractedData := table_val \<lparr>headers = [''A''], rows = []\<rparr>\<rparr>"
  have h1: "capturedImage ?s = Some ''data:image/jpeg;base64,AAAA''" by simp
  have h2: "''data:image/jpeg;base64,AAAA'' \<noteq> []" by simp
  have h3: "Resolved ?r = Rejected \<or> (\<exists>response. Resolved ?r = Resolved response \<and> \<not> ok response)"
    by (simp add: ok_def)
  have h1': "capturedImage ?s' = Some ''data:image/jpeg;base64,AAAA''" by simp
  have h3': "Rejected = Rejected \<or> (\<exists>response. Rejected = Resolved response \<and> \<not> ok response)"
    by simp
  show ?thesis
    using processImage_failure [OF h1 h2 h3] processImage_failure [OF h1' h2 h3']
    by (simp add: App_init_def)
qed

text \<open>
  Claim C3. With a captured image present, when the response has a success status and its
  body parses to an object whose \<^verbatim>\<open>tableData\<close> is a table, \<^verbatim>\<open>processImage\<close> ends with the
  extracted data equal to that table and with the error null, whatever the error was before.
\<close>

theorem processImage_success:
  assumes "capturedImage s = Some img" and "img \<noteq> []"
    and "fetch = Resolved response" and "ok response"
    and "response_json response = Some (JObj props)"
    and "map_of props ''tableData'' = Some (table_val t)"
  shows "processImage fetch s =
           s\<lparr>extractedData := table_val t, error := None, isProcessing := False\<rparr>
         \<and> extractedData (processImage fetch s) = table_val t
         \<and> error (processImage fetch s) = None"
  using assms by (simp add: processImage_def processImage_try_def)

theorem processImage_success_witness:
  \<open>processImage
     (Resolved \<lparr>status = 200,
                response_text = ''{"tableData":{"headers":["Date","Shift"],"rows":[["2024-01-15","Day"]]}}'',
                response_json = Some (JObj [(''tableData'',
                  table_val \<lparr>headers = [''Date'', ''Shift''], rows = [[''2024-01-15'', ''Day'']]\<rparr>)])\<rparr>)
     (App_init\<lparr>capturedImage := Some ''data:image/jpeg;base64,AAAA'',
               error := Some ''Unable to access camera. Please check permissions.''\<rparr>)
   = App_init\<lparr>capturedImage := Some ''data:image/jpeg;base64,AAAA'',
               extractedData :=
                 table_val \<lparr>headers = [''Date'', ''Shift''], rows = [[''2024-01-15'', ''Day'']]\<rparr>\<rparr>\<close>
proof -
  let ?t = "\<lparr>headers = [''Date'', ''Shift''], rows = [[''2024-01-15'', ''Day'']]\<rparr>"
  let ?r = \<open>\<lparr>status = 200,
            response_text = ''{"tableData":{"headers":["Date","Shift"],"rows":[["2024-01-15","Day"]]}}'',
            response_json = Some (JObj [(''tableData'', table_val ?t)])\<rparr>\<close>
  let ?s = "App_init\<lparr>capturedImage := Some ''data:image/jpeg;base64,AAAA'',
               error := Some ''Unable to access camera. Please check permissions.''\<rparr>"
  have h1: "capturedImage ?s = Some ''data:image/jpeg;base64,AAAA''" by simp
  have h2: "''data:image/jpeg;base64,AAAA'' \<noteq> []" by simp
  have h3: "Resolved ?r = Resolved ?r" by simp
  have h4: "ok ?r" by (simp add: ok_def)
  have h5: "response_json ?r = Some (JObj [(''tableData'', table_val ?t)])" by simp
  have h6: "map_of [(''tableData'', table_val ?t)] ''tableData'' = Some (table_val ?t)" by simp
  show ?thesis
    using processImage_success [OF h1 h2 h3 h4 h5 h6]
    by (simp add: App_init_def)
qed

lemma table_val_inject: "table_val t = table_val u \<Longrightarrow> t = u" for t u :: TableData
  by (cases t, cases u) (simp add: table_val_def inj_map_eq_map[unfolded inj_def] map_eq_conv)






subsection \<open>The API key\<close>

lemma match_here_Some:
  assumes "match_here s = Some grp"
  shows "\<exists>post. s = key_literal @ grp @ post \<and> grp \<noteq> []
           \<and> (\<forall>c\<in>set grp. \<not> is_line_terminator c)
           \<and> (post = [] \<or> is_line_terminator (hd post))"
proof -
  let ?P = "\<lambda>c. \<not> is_line_terminator c"
  from assms have p: "prefix key_literal s"
    by (simp add: match_here_def split: if_splits)
  then obtain rest where s: "s = key_literal @ rest"
    by (auto elim: prefixE)
  from assms s have grp: "grp = takeWhile ?P rest" and ne: "grp \<noteq> []"
    by (auto simp add: match_here_def Let_def split: if_splits)
  let ?post = "dropWhile ?P rest"
  have "rest = grp @ ?post"
    by (simp add: grp)
  moreover have "\<forall>c\<in>set grp. ?P c"
    by (auto simp add: grp dest: set_takeWhileD)
  moreover have "?post = [] \<or> is_line_terminator (hd ?post)"
    using hd_dropWhile [of ?P rest] by auto
  ultimately show ?thesis
    using s ne by blast
qed

lemma match_here_literal:
  "\<not> is_line_terminator c \<Longrightarrow> match_here (key_literal @ c # rest) \<noteq> None"
  by (simp add: match_here_def Let_def)

lemma takeWhile_run:
  assumes "\<forall>c\<in>set grp. P c" and "post = [] \<or> \<not> P (hd post)"
  shows "takeWhile P (grp @ post) = grp"
proof (cases post)
  case Nil
  with assms(1) show ?thesis by simp
next
  case (Cons x xs)
  with assms show ?thesis
    by (simp add: takeWhile_append2)
qed

lemma match_here_run:
  assumes "grp \<noteq> []" and "\<forall>c\<in>set grp. \<not> is_line_terminator c"
    and "post = [] \<or> is_line_terminator (hd post)"
  shows "match_here (key_literal @ grp @ post) = Some grp"
proof -
  have "takeWhile (\<lambda>c. \<not> is_line_terminator c) (grp @ post) = grp"
    using assms(2,3) by (intro takeWhile_run) auto
  with assms(1) show ?thesis
    by (simp add: match_here_def Let_def)
qed

lemma api_key_match_Some:
  "api_key_match s = Some grp \<Longrightarrow>
     \<exists>pre post. s = pre @ key_literal @ grp @ post \<and> grp \<noteq> []
        \<and> (\<forall>c\<in>set grp. \<not> is_line_terminator c)
        \<and> (post = [] \<or> is_line_terminator (hd post))
        \<and> (\<forall>pre' c rest'. s = pre' @ key_literal @ c # rest' \<and> \<not> is_line_terminator c
              \<longrightarrow> length pre \<le> length pre')"
proof (induction s)
  case Nil
  then show ?case by simp
next
  case (Cons a as)
  show ?case
  proof (cases "match_here (a # as)")
    case None
    with Cons.prems have "api_key_match as = Some grp" by simp
    from Cons.IH [OF this] obtain pre post where
      as: "as = pre @ key_literal @ grp @ post" and ne: "grp \<noteq> []"
      and nl: "\<forall>c\<in>set grp. \<not> is_line_terminator c"
      and pc: "post = [] \<or> is_line_terminator (hd post)"
      and lm: "\<forall>pre' c rest'. as = pre' @ key_literal @ c # rest' \<and> \<not> is_line_terminator c
              \<longrightarrow> length pre \<le> length pre'"
      by blast
    have "length (a # pre) \<le> length pre'"
      if eq: "a # as = pre' @ key_literal @ c # rest'" and c: "\<not> is_line_terminator c"
      for pre' c rest'
    proof (cases pre')
      case Nil
      with eq match_here_literal [OF c, of rest'] None show ?thesis by simp
    next
      case (Cons b bs)
      with eq have "as = bs @ key_literal @ c # rest'" by simp
      with lm c have "length pre \<le> length bs" by blast
      with Cons show ?thesis by simp
    qed
    moreover from as have "a # as = (a # pre) @ key_literal @ grp @ post" by simp
    ultimately show ?thesis
      using ne nl pc by blast
  next
    case (Some g)
    with Cons.prems have "g = grp" by simp
    with Some match_here_Some [of "a # as" grp] obtain post where
      "a # as = [] @ key_literal @ grp @ post" "grp \<noteq> []"
      "\<forall>c\<in>set grp. \<not> is_line_terminator c" "post = [] \<or> is_line_terminator (hd post)"
      by auto
    moreover have "\<forall>pre' c rest'. a # as = pre' @ key_literal @ c # rest'
        \<and> \<not> is_line_terminator c \<longrightarrow> length ([]::string) \<le> length pre'"
      by simp
    ultimately show ?thesis by blast
  qed
qed

lemma api_key_match_leftmost:
  "grp \<noteq> [] \<Longrightarrow> \<forall>c\<in>set grp. \<not> is_line_terminator c \<Longrightarrow>
   post = [] \<or> is_line_terminator (hd post) \<Longrightarrow>
   \<forall>pre' c rest'. pre @ key_literal @ grp @ post = pre' @ key_literal @ c # rest'
       \<and> \<not> is_line_terminator c \<longrightarrow> length pre \<le> length pre' \<Longrightarrow>
   api_key_match (pre @ key_literal @ grp @ post) = Some grp"
proof (induction pre)
  case Nil
  obtain k ks where k: "key_literal = k # ks"
    by (simp add: key_literal_def)
  from match_here_run [OF Nil.prems(1,2,3)] show ?case
    by (simp add: k)
next
  case (Cons p pre)
  let ?s = "pre @ key_literal @ grp @ post"
  have none: "match_here (p # ?s) = None"
  proof (rule ccontr)
    assume "match_here (p # ?s) \<noteq> None"
    then obtain g where "match_here (p # ?s) = Some g" by blast
    from match_here_Some [OF this] obtain post' where
      eq: "p # ?s = key_literal @ g @ post'" and "g \<noteq> []"
      and nl: "\<forall>c\<in>set g. \<not> is_line_terminator c"
      by blast
    then obtain c cs where g: "g = c # cs" by (cases g) auto
    with eq nl have "(p # pre) @ key_literal @ grp @ post = [] @ key_literal @ c # (cs @ post')"
      and "\<not> is_line_terminator c"
      by simp_all
    with Cons.prems(4) have "length (p # pre) \<le> length ([]::string)" by blast
    then show False by simp
  qed
  have "\<forall>pre' c rest'. ?s = pre' @ key_literal @ c # rest' \<and> \<not> is_line_terminator c
          \<longrightarrow> length pre \<le> length pre'"
  proof (intro allI impI)
    fix pre' c rest'
    assume "?s = pre' @ key_literal @ c # rest' \<and> \<not> is_line_terminator c"
    then have "(p # pre) @ key_literal @ grp @ post = (p # pre') @ key_literal @ c # rest'"
      and "\<not> is_line_terminator c"
      by simp_all
    with Cons.prems(4) have "length (p # pre) \<le> length (p # pre')" by blast
    then show "length pre \<le> length pre'" by simp
  qed
  from Cons.IH [OF Cons.prems(1,2,3) this] none show ?case
    by simp
qed

lemma api_key_match_found:
  "\<not> is_line_terminator c \<Longrightarrow> api_key_match (pre @ key_literal @ c # rest) \<noteq> None"
proof (induction pre)
  case Nil
  obtain k ks where k: "key_literal = k # ks"
    by (simp add: key_literal_def)
  from Nil match_here_literal [of c rest] show ?case
    by (auto simp add: k split: option.splits)
next
  case (Cons p pre)
  then show ?case
    by (auto split: option.splits)
qed

lemma api_key_match_None_iff:
  "api_key_match s = None \<longleftrightarrow>
     \<not> (\<exists>pre c rest. s = pre @ key_literal @ c # rest \<and> \<not> is_line_terminator c)"
proof
  assume "api_key_match s = None"
  then show "\<not> (\<exists>pre c rest. s = pre @ key_literal @ c # rest \<and> \<not> is_line_terminator c)"
    using api_key_match_found by blast
next
  assume no: "\<not> (\<exists>pre c rest. s = pre @ key_literal @ c # rest \<and> \<not> is_line_terminator c)"
  show "api_key_match s = None"
  proof (rule ccontr)
    assume "api_key_match s \<noteq> None"
    then obtain grp where "api_key_match s = Some grp" by blast
    from api_key_match_Some [OF this] obtain pre post where
      s: "s = pre @ key_literal @ grp @ post" and "grp \<noteq> []"
      and nl: "\<forall>c\<in>set grp. \<not> is_line_terminator c"
      by blast
    then obtain c cs where g: "grp = c # cs" by (cases grp) auto
    with s nl have "s = pre @ key_literal @ c # (cs @ post) \<and> \<not> is_line_terminator c"
      by simp
    with no show False by blast
  qed
qed

lemma trim_decompose:
  "\<exists>lead trail. grp = lead @ trim grp @ trail
     \<and> (\<forall>c\<in>set lead. is_white_space c) \<and> (\<forall>c\<in>set trail. is_white_space c)
     \<and> (trim grp = [] \<or> (\<not> is_white_space (hd (trim grp)) \<and> \<not> is_white_space (last (trim grp))))"
proof -
  let ?W = is_white_space
  let ?rest = "dropWhile ?W grp"
  let ?lead = "takeWhile ?W grp"
  let ?trail = "rev (takeWhile ?W (rev ?rest))"
  have k: "trim grp = rev (dropWhile ?W (rev ?rest))"
    by (simp add: trim_def)
  have "rev (takeWhile ?W (rev ?rest) @ dropWhile ?W (rev ?rest)) = rev (rev ?rest)"
    by (simp only: takeWhile_dropWhile_id)
  then have "rev (dropWhile ?W (rev ?rest)) @ ?trail = ?rest"
    by (simp only: rev_append rev_rev_ident)
  then have rest: "?rest = trim grp @ ?trail"
    by (simp only: k)
  have grp: "grp = ?lead @ trim grp @ ?trail"
    using rest takeWhile_dropWhile_id [of ?W grp] by simp
  have lead: "\<forall>c\<in>set ?lead. ?W c"
    by (auto dest: set_takeWhileD)
  have trail: "\<forall>c\<in>set ?trail. ?W c"
    by (auto dest: set_takeWhileD)
  have ends: "\<not> ?W (hd (trim grp)) \<and> \<not> ?W (last (trim grp))" if ne: "trim grp \<noteq> []"
  proof
    obtain t where t: "?rest = trim grp @ t"
      using rest by blast
    from ne have "trim grp @ t \<noteq> []" and "hd (trim grp @ t) = hd (trim grp)"
      by simp_all
    then have "?rest \<noteq> []" and "hd ?rest = hd (trim grp)"
      unfolding t by simp_all
    with hd_dropWhile [of ?W grp] show "\<not> ?W (hd (trim grp))"
      by simp
    from ne have d: "dropWhile ?W (rev ?rest) \<noteq> []"
      by (simp add: k)
    from hd_dropWhile [OF d] have "\<not> ?W (hd (dropWhile ?W (rev ?rest)))" .
    with d show "\<not> ?W (last (trim grp))"
      by (simp add: k last_rev)
  qed
  from grp lead trail ends show ?thesis
    by blast
qed

lemma trim_unique:
  assumes "grp = lead @ k @ trail"
    and "\<forall>c\<in>set lead. is_white_space c" and "\<forall>c\<in>set trail. is_white_space c"
    and "k = [] \<or> (\<not> is_white_space (hd k) \<and> \<not> is_white_space (last k))"
  shows "trim grp = k"
proof (cases "k = []")
  case True
  with assms(1,2,3) have "\<forall>c\<in>set grp. is_white_space c" by auto
  then have "dropWhile is_white_space grp = []" by (simp only: dropWhile_eq_Nil_conv)
  then have "trim grp = []" by (simp only: trim_def rev.simps dropWhile.simps)
  with True show ?thesis by (simp only:)
next
  case False
  with assms(4) have h: "\<not> is_white_space (hd k)" and l: "\<not> is_white_space (last k)"
    by simp_all
  from assms(2) have "dropWhile is_white_space grp = dropWhile is_white_space (k @ trail)"
    by (simp add: assms(1) dropWhile_append2)
  also from False h have "\<dots> = k @ trail"
    by (cases k) simp_all
  finally have d: "dropWhile is_white_space grp = k @ trail" .
  from assms(3) have "\<And>c. c \<in> set (rev trail) \<Longrightarrow> is_white_space c"
    by simp
  then have "dropWhile is_white_space (rev trail @ rev k) = dropWhile is_white_space (rev k)"
    by (rule dropWhile_append2)
  then have "dropWhile is_white_space (rev (k @ trail)) = dropWhile is_white_space (rev k)"
    by simp
  also from False l have "\<dots> = rev k"
    by (cases "rev k") (simp_all add: last_rev [symmetric] hd_rev)
  finally show ?thesis
    by (simp add: trim_def d)
qed

lemma key_literal_fold: "''GEMINI_API_KEY='' = key_literal"
  by (simp add: key_literal_def)

lemma line_terminator_fold: "c \<in> {CHR 0x0A, CHR 0x0D} \<longleftrightarrow> is_line_terminator c"
  by (simp add: is_line_terminator_def)

lemma line_terminators_fold: "set grp \<inter> {CHR 0x0A, CHR 0x0D} = {} \<longleftrightarrow> (\<forall>c\<in>set grp. \<not> is_line_terminator c)"
  using line_terminator_fold by blast

lemma white_space_fold: "c \<in> {CHR 0x09, CHR 0x0A, CHR 0x0B, CHR 0x0C, CHR 0x0D, CHR 0x20, CHR 0xA0} \<longleftrightarrow> is_white_space c"
  by (simp add: is_white_space_def)

lemma white_spaces_fold: "set cs \<subseteq> {CHR 0x09, CHR 0x0A, CHR 0x0B, CHR 0x0C, CHR 0x0D, CHR 0x20, CHR 0xA0} \<longleftrightarrow> (\<forall>c\<in>set cs. is_white_space c)"
  unfolding subset_iff white_space_fold by blast

lemma api_key_match_Some_iff:
  "api_key_match s = Some grp \<longleftrightarrow>
     (\<exists>pre post. s = pre @ ''GEMINI_API_KEY='' @ grp @ post \<and> grp \<noteq> []
        \<and> set grp \<inter> {CHR 0x0A, CHR 0x0D} = {} \<and> (post = [] \<or> hd post \<in> {CHR 0x0A, CHR 0x0D})
        \<and> (\<forall>pre' c rest'. s = pre' @ ''GEMINI_API_KEY='' @ c # rest' \<and> c \<notin> {CHR 0x0A, CHR 0x0D}
              \<longrightarrow> length pre \<le> length pre'))"
  unfolding key_literal_fold line_terminators_fold line_terminator_fold
proof
  assume "api_key_match s = Some grp"
  from api_key_match_Some [OF this]
  show "\<exists>pre post. s = pre @ key_literal @ grp @ post \<and> grp \<noteq> []
        \<and> (\<forall>c\<in>set grp. \<not> is_line_terminator c)
        \<and> (post = [] \<or> is_line_terminator (hd post))
        \<and> (\<forall>pre' c rest'. s = pre' @ key_literal @ c # rest' \<and> \<not> is_line_terminator c
              \<longrightarrow> length pre \<le> length pre')" .
next
  assume "\<exists>pre post. s = pre @ key_literal @ grp @ post \<and> grp \<noteq> []
        \<and> (\<forall>c\<in>set grp. \<not> is_line_terminator c)
        \<and> (post = [] \<or> is_line_terminator (hd post))
        \<and> (\<forall>pre' c rest'. s = pre' @ key_literal @ c # rest' \<and> \<not> is_line_terminator c
              \<longrightarrow> length pre \<le> length pre')"
  then obtain pre post where s: "s = pre @ key_literal @ grp @ post" and a: "grp \<noteq> []"
    and b: "\<forall>c\<in>set grp. \<not> is_line_terminator c"
    and c: "post = [] \<or> is_line_terminator (hd post)"
    and d: "\<forall>pre' c rest'. s = pre' @ key_literal @ c # rest'
       \<and> \<not> is_line_terminator c \<longrightarrow> length pre \<le> length pre'"
    by blast
  from d have "\<forall>pre' c rest'. pre @ key_literal @ grp @ post = pre' @ key_literal @ c # rest'
       \<and> \<not> is_line_terminator c \<longrightarrow> length pre \<le> length pre'"
    unfolding s .
  from api_key_match_leftmost [OF a b c this] show "api_key_match s = Some grp"
    unfolding s .
qed

lemma api_key_match_None_literal:
  "api_key_match s = None \<longleftrightarrow>
     \<not> (\<exists>pre c rest. s = pre @ ''GEMINI_API_KEY='' @ c # rest \<and> c \<notin> {CHR 0x0A, CHR 0x0D})"
  unfolding key_literal_fold line_terminator_fold
  by (rule api_key_match_None_iff)

lemma trim_iff:
  "trim grp = k \<longleftrightarrow>
     (\<exists>lead trail. grp = lead @ k @ trail \<and> set lead \<subseteq> {CHR 0x09, CHR 0x0A, CHR 0x0B, CHR 0x0C, CHR 0x0D, CHR 0x20, CHR 0xA0} \<and> set trail \<subseteq> {CHR 0x09, CHR 0x0A, CHR 0x0B, CHR 0x0C, CHR 0x0D, CHR 0x20, CHR 0xA0}
        \<and> (k = [] \<or> (hd k \<notin> {CHR 0x09, CHR 0x0A, CHR 0x0B, CHR 0x0C, CHR 0x0D, CHR 0x20, CHR 0xA0} \<and> last k \<notin> {CHR 0x09, CHR 0x0A, CHR 0x0B, CHR 0x0C, CHR 0x0D, CHR 0x20, CHR 0xA0})))"
  unfolding white_spaces_fold white_space_fold
proof
  assume "trim grp = k"
  with trim_decompose [of grp]
  show "\<exists>lead trail. grp = lead @ k @ trail
     \<and> (\<forall>c\<in>set lead. is_white_space c) \<and> (\<forall>c\<in>set trail. is_white_space c)
     \<and> (k = [] \<or> (\<not> is_white_space (hd k) \<and> \<not> is_white_space (last k)))"
    by simp
next
  assume "\<exists>lead trail. grp = lead @ k @ trail
     \<and> (\<forall>c\<in>set lead. is_white_space c) \<and> (\<forall>c\<in>set trail. is_white_space c)
     \<and> (k = [] \<or> (\<not> is_white_space (hd k) \<and> \<not> is_white_space (last k)))"
  then obtain lead trail where "grp = lead @ k @ trail"
    and "\<forall>c\<in>set lead. is_white_space c" and "\<forall>c\<in>set trail. is_white_space c"
    and "k = [] \<or> (\<not> is_white_space (hd k) \<and> \<not> is_white_space (last k))"
    by blast
  then show "trim grp = k"
    by (rule trim_unique)
qed

text \<open>
  Claim C9. The first request is the one for the key file, \<^verbatim>\<open>/.api_key\<close>. The expression
  matches when the text has an occurrence of \<^verbatim>\<open>GEMINI_API_KEY=\<close> followed by a character
  other than a line feed or carriage return; the group is then what follows the leftmost
  such occurrence up to the end of the line, and the key is the group without the white
  space at its two ends. When the expression does not match, \<^verbatim>\<open>processTableImage\<close> fails
  with an error and the key-file request is the only one sent. When it matches, the second
  request is a POST to the Gemini endpoint with the key in the URL and the prompt and the
  image in the body. When that response has a success status and its
  \<^verbatim>\<open>candidates[0].content.parts[0].text\<close> is a text that \<^verbatim>\<open>JSON.parse\<close> accepts, the result is
  the parsed value wrapped as \<^verbatim>\<open>{ tableData }\<close>.
\<close>

theorem processTableImage_api_key:
  "(api_key_match (response_text key) = None \<longleftrightarrow>
      \<not> (\<exists>pre c rest. response_text key = pre @ ''GEMINI_API_KEY='' @ c # rest \<and> c \<notin> {CHR 0x0A, CHR 0x0D}))
   \<and> (api_key_match (response_text key) = Some grp \<longleftrightarrow>
      (\<exists>pre post. response_text key = pre @ ''GEMINI_API_KEY='' @ grp @ post \<and> grp \<noteq> []
         \<and> set grp \<inter> {CHR 0x0A, CHR 0x0D} = {} \<and> (post = [] \<or> hd post \<in> {CHR 0x0A, CHR 0x0D})
         \<and> (\<forall>pre' c rest'. response_text key = pre' @ ''GEMINI_API_KEY='' @ c # rest' \<and> c \<notin> {CHR 0x0A, CHR 0x0D}
               \<longrightarrow> length pre \<le> length pre')))
   \<and> (trim grp = apiKey \<longleftrightarrow>
      (\<exists>lead trail. grp = lead @ apiKey @ trail \<and> set lead \<subseteq> {CHR 0x09, CHR 0x0A, CHR 0x0B, CHR 0x0C, CHR 0x0D, CHR 0x20, CHR 0xA0} \<and> set trail \<subseteq> {CHR 0x09, CHR 0x0A, CHR 0x0B, CHR 0x0C, CHR 0x0D, CHR 0x20, CHR 0xA0}
         \<and> (apiKey = [] \<or> (hd apiKey \<notin> {CHR 0x09, CHR 0x0A, CHR 0x0B, CHR 0x0C, CHR 0x0D, CHR 0x20, CHR 0xA0} \<and> last apiKey \<notin> {CHR 0x09, CHR 0x0A, CHR 0x0B, CHR 0x0C, CHR 0x0D, CHR 0x20, CHR 0xA0}))))
   \<and> processTableImage JSON_parse Rejected fetch_gemini imageBase64 prompt
       = (Inl NetworkError, [\<lparr>url = ''/.api_key'', http_method = ''GET'', content_type = [], payload = JUndefined\<rparr>])
   \<and> (api_key_match (response_text key) = None \<longrightarrow>
      processTableImage JSON_parse (Resolved key) fetch_gemini imageBase64 prompt
        = (Inl (Error ''Gemini API key not found in .api_key file''), [\<lparr>url = ''/.api_key'', http_method = ''GET'', content_type = [], payload = JUndefined\<rparr>]))
   \<and> (api_key_match (response_text key) = Some grp \<longrightarrow>
      snd (processTableImage JSON_parse (Resolved key) fetch_gemini imageBase64 prompt)
        = [\<lparr>url = ''/.api_key'', http_method = ''GET'', content_type = [], payload = JUndefined\<rparr>,
           \<lparr>url = ''https://generativelanguage.googleapis.com/v1beta/models/gemini-1.5-flash:generateContent?key='' @ trim grp,
              http_method = ''POST'', content_type = ''application/json'',
              payload = JObj [(''contents'', JArr [JObj [(''parts'', JArr
                [JObj [(''text'', JStr prompt)],
                 JObj [(''inline_data'', JObj [(''mime_type'', JStr ''image/jpeg''),
                                              (''data'', JStr imageBase64)])]])]])]\<rparr>])
   \<and> (api_key_match (response_text key) = Some grp \<and> ok geminiResponse
      \<and> response_json geminiResponse = Some (JObj result)
      \<and> map_of result ''candidates'' = Some (JArr (JObj candidate # candidates))
      \<and> map_of candidate ''content'' = Some (JObj content)
      \<and> map_of content ''parts'' = Some (JArr (JObj part # parts))
      \<and> map_of part ''text'' = Some (JStr answer)
      \<and> JSON_parse answer = Some tableData \<longrightarrow>
      processTableImage JSON_parse (Resolved key) (Resolved geminiResponse) imageBase64 prompt
        = (Inr (JObj [(''tableData'', tableData)]),
           [\<lparr>url = ''/.api_key'', http_method = ''GET'', content_type = [], payload = JUndefined\<rparr>,
            \<lparr>url = ''https://generativelanguage.googleapis.com/v1beta/models/gemini-1.5-flash:generateContent?key='' @ trim grp,
              http_method = ''POST'', content_type = ''application/json'',
              payload = JObj [(''contents'', JArr [JObj [(''parts'', JArr
                [JObj [(''text'', JStr prompt)],
                 JObj [(''inline_data'', JObj [(''mime_type'', JStr ''image/jpeg''),
                                              (''data'', JStr imageBase64)])]])]])]\<rparr>]))"
proof -
  have run: "api_key_match (response_text key) = Some grp \<Longrightarrow>
      processTableImage JSON_parse (Resolved key) g imageBase64 prompt
        = (gemini_result JSON_parse g,
           [\<lparr>url = ''/.api_key'', http_method = ''GET'', content_type = [], payload = JUndefined\<rparr>,
            \<lparr>url = ''https://generativelanguage.googleapis.com/v1beta/models/gemini-1.5-flash:generateContent?key='' @ trim grp,
              http_method = ''POST'', content_type = ''application/json'',
              payload = JObj [(''contents'', JArr [JObj [(''parts'', JArr
                [JObj [(''text'', JStr prompt)],
                 JObj [(''inline_data'', JObj [(''mime_type'', JStr ''image/jpeg''),
                                              (''data'', JStr imageBase64)])]])]])]\<rparr>])" for g
    by (simp add: processTableImage_def api_key_request_def gemini_request_def)
  have good: "gemini_result JSON_parse (Resolved geminiResponse)
        = Inr (JObj [(''tableData'', tableData)])"
    if "ok geminiResponse" "response_json geminiResponse = Some (JObj result)"
      "map_of result ''candidates'' = Some (JArr (JObj candidate # candidates))"
      "map_of candidate ''content'' = Some (JObj content)"
      "map_of content ''parts'' = Some (JArr (JObj part # parts))"
      "map_of part ''text'' = Some (JStr answer)" "JSON_parse answer = Some tableData"
    using that by (simp add: gemini_result_def model_text_def)
  have none: "api_key_match (response_text key) = None \<longrightarrow>
      processTableImage JSON_parse (Resolved key) fetch_gemini imageBase64 prompt
        = (Inl (Error ''Gemini API key not found in .api_key file''), [\<lparr>url = ''/.api_key'', http_method = ''GET'', content_type = [], payload = JUndefined\<rparr>])"
    by (simp add: processTableImage_def api_key_request_def)
  have rej: "processTableImage JSON_parse Rejected fetch_gemini imageBase64 prompt
       = (Inl NetworkError, [\<lparr>url = ''/.api_key'', http_method = ''GET'', content_type = [], payload = JUndefined\<rparr>])"
    by (simp add: processTableImage_def api_key_request_def)
  have snd: "api_key_match (response_text key) = Some grp \<longrightarrow>
      snd (processTableImage JSON_parse (Resolved key) fetch_gemini imageBase64 prompt)
        = [\<lparr>url = ''/.api_key'', http_method = ''GET'', content_type = [], payload = JUndefined\<rparr>,
           \<lparr>url = ''https://generativelanguage.googleapis.com/v1beta/models/gemini-1.5-flash:generateContent?key='' @ trim grp,
              http_method = ''POST'', content_type = ''application/json'',
              payload = JObj [(''contents'', JArr [JObj [(''parts'', JArr
                [JObj [(''text'', JStr prompt)],
                 JObj [(''inline_data'', JObj [(''mime_type'', JStr ''image/jpeg''),
                                              (''data'', JStr imageBase64)])]])]])]\<rparr>]"
    using run [of fetch_gemini] by simp
  have full: "api_key_match (response_text key) = Some grp \<and> ok geminiResponse
      \<and> response_json geminiResponse = Some (JObj result)
      \<and> map_of result ''candidates'' = Some (JArr (JObj candidate # candidates))
      \<and> map_of candidate ''content'' = Some (JObj content)
      \<and> map_of content ''parts'' = Some (JArr (JObj part # parts))
      \<and> map_of part ''text'' = Some (JStr answer)
      \<and> JSON_parse answer = Some tableData \<longrightarrow>
      processTableImage JSON_parse (Resolved key) (Resolved geminiResponse) imageBase64 prompt
        = (Inr (JObj [(''tableData'', tableData)]),
           [\<lparr>url = ''/.api_key'', http_method = ''GET'', content_type = [], payload = JUndefined\<rparr>,
            \<lparr>url = ''https://generativelanguage.googleapis.com/v1beta/models/gemini-1.5-flash:generateContent?key='' @ trim grp,
              http_method = ''POST'', content_type = ''application/json'',
              payload = JObj [(''contents'', JArr [JObj [(''parts'', JArr
                [JObj [(''text'', JStr prompt)],
                 JObj [(''inline_data'', JObj [(''mime_type'', JStr ''image/jpeg''),
                                              (''data'', JStr imageBase64)])]])]])]\<rparr>])"
    using run [of "Resolved geminiResponse"] good by simp
  from api_key_match_None_literal [of "response_text key"]
    api_key_match_Some_iff [of "response_text key" grp] trim_iff [of grp apiKey]
    rej none snd full
  show ?thesis
    by (intro conjI) assumption+
qed

theorem processTableImage_api_key_witness:
  \<open>processTableImage (map_of [(''{"headers":["A"],"rows":[["1"]]}'',
        table_val \<lparr>headers = [''A''], rows = [[''1'']]\<rparr>)])
     (Resolved \<lparr>status = 200, response_text = ''GEMINI_API_KEY=\<newline>OTHER=1'', response_json = None\<rparr>)
     Rejected ''AAAA'' ''Extract the table''
   = (Inl (Error ''Gemini API key not found in .api_key file''), [\<lparr>url = ''/.api_key'', http_method = ''GET'', content_type = [], payload = JUndefined\<rparr>])
   \<and> trim '' abc123 '' = ''abc123''
   \<and> processTableImage (map_of [(''{"headers":["A"],"rows":[["1"]]}'',
        table_val \<lparr>headers = [''A''], rows = [[''1'']]\<rparr>)])
     (Resolved \<lparr>status = 200, response_text = ''# keys\<newline>GEMINI_API_KEY= abc123 \<newline>OTHER=1'',
                response_json = None\<rparr>)
     (Resolved \<lparr>status = 200, response_text = [],
        response_json = Some (JObj [(''candidates'', JArr [JObj [(''content'',
          JObj [(''parts'', JArr [JObj [(''text'',
            JStr ''{"headers":["A"],"rows":[["1"]]}'')]])])]])])\<rparr>)
     ''AAAA'' ''Extract the table''
   = (Inr (JObj [(''tableData'', table_val \<lparr>headers = [''A''], rows = [[''1'']]\<rparr>)]),
      [\<lparr>url = ''/.api_key'', http_method = ''GET'', content_type = [], payload = JUndefined\<rparr>,
       \<lparr>url = ''https://generativelanguage.googleapis.com/v1beta/models/gemini-1.5-flash:generateContent?key=abc123'',
         http_method = ''POST'', content_type = ''application/json'',
         payload = JObj [(''contents'', JArr [JObj [(''parts'', JArr
           [JObj [(''text'', JStr ''Extract the table'')],
            JObj [(''inline_data'', JObj [(''mime_type'', JStr ''image/jpeg''),
                                         (''data'', JStr ''AAAA'')])]])]])]\<rparr>])\<close>
proof -
  let ?t = "table_val \<lparr>headers = [''A''], rows = [[''1'']]\<rparr>"
  let ?P = \<open>map_of [(''{"headers":["A"],"rows":[["1"]]}'', ?t)]\<close>
  let ?nokey = "\<lparr>status = 200, response_text = ''GEMINI_API_KEY=\<newline>OTHER=1'', response_json = None\<rparr>"
  let ?key = "\<lparr>status = 200, response_text = ''# keys\<newline>GEMINI_API_KEY= abc123 \<newline>OTHER=1'',
                response_json = None\<rparr>"
  let ?part = \<open>[(''text'', JStr ''{"headers":["A"],"rows":[["1"]]}'')]\<close>
  let ?content = "[(''parts'', JArr [JObj ?part])]"
  let ?candidate = "[(''content'', JObj ?content)]"
  let ?result = "[(''candidates'', JArr [JObj ?candidate])]"
  let ?g = "\<lparr>status = 200, response_text = [], response_json = Some (JObj ?result)\<rparr>"
  have a: "api_key_match (response_text ?nokey) = None"
    by (simp add: match_here_def key_literal_def is_line_terminator_def)
  have k: "api_key_match (response_text ?key) = Some '' abc123 ''"
    by (simp add: match_here_def key_literal_def is_line_terminator_def)
  have b: \<open>api_key_match (response_text ?key) = Some '' abc123 '' \<and> ok ?g
      \<and> response_json ?g = Some (JObj ?result)
      \<and> map_of ?result ''candidates'' = Some (JArr (JObj ?candidate # []))
      \<and> map_of ?candidate ''content'' = Some (JObj ?content)
      \<and> map_of ?content ''parts'' = Some (JArr (JObj ?part # []))
      \<and> map_of ?part ''text'' = Some (JStr ''{"headers":["A"],"rows":[["1"]]}'')
      \<and> ?P ''{"headers":["A"],"rows":[["1"]]}'' = Some ?t\<close>
    using k by (simp add: ok_def)
  have c: "\<exists>lead trail. '' abc123 '' = lead @ ''abc123'' @ trail
      \<and> set lead \<subseteq> {CHR 0x09, CHR 0x0A, CHR 0x0B, CHR 0x0C, CHR 0x0D, CHR 0x20, CHR 0xA0} \<and> set trail \<subseteq> {CHR 0x09, CHR 0x0A, CHR 0x0B, CHR 0x0C, CHR 0x0D, CHR 0x20, CHR 0xA0}
      \<and> (''abc123'' = [] \<or> (hd ''abc123'' \<notin> {CHR 0x09, CHR 0x0A, CHR 0x0B, CHR 0x0C, CHR 0x0D, CHR 0x20, CHR 0xA0} \<and> last ''abc123'' \<notin> {CHR 0x09, CHR 0x0A, CHR 0x0B, CHR 0x0C, CHR 0x0D, CHR 0x20, CHR 0xA0}))"
    by (rule exI [of _ "'' ''"], rule exI [of _ "'' ''"]) simp
  from a have 1: "processTableImage ?P (Resolved ?nokey) Rejected ''AAAA'' ''Extract the table''
      = (Inl (Error ''Gemini API key not found in .api_key file''), [\<lparr>url = ''/.api_key'', http_method = ''GET'', content_type = [], payload = JUndefined\<rparr>])"
    using processTableImage_api_key [where key = ?nokey and JSON_parse = ?P
        and fetch_gemini = Rejected and prompt = "''Extract the table''"]
    by blast
  from c have t: "trim '' abc123 '' = ''abc123''"
    using processTableImage_api_key [where grp = "'' abc123 ''" and apiKey = "''abc123''"]
    by blast
  from b have 2: "processTableImage ?P (Resolved ?key) (Resolved ?g) ''AAAA'' ''Extract the table''
      = (Inr (JObj [(''tableData'', ?t)]),
         [\<lparr>url = ''/.api_key'', http_method = ''GET'', content_type = [], payload = JUndefined\<rparr>,
          \<lparr>url = ''https://generativelanguage.googleapis.com/v1beta/models/gemini-1.5-flash:generateContent?key='' @ trim '' abc123 '',
         http_method = ''POST'', content_type = ''application/json'',
         payload = JObj [(''contents'', JArr [JObj [(''parts'', JArr
           [JObj [(''text'', JStr ''Extract the table'')],
            JObj [(''inline_data'', JObj [(''mime_type'', JStr ''image/jpeg''),
                                         (''data'', JStr ''AAAA'')])]])]])]\<rparr>])"
    using processTableImage_api_key [where key = ?key and JSON_parse = ?P
        and geminiResponse = ?g and result = ?result and candidate = ?candidate
        and candidates = "[]" and content = ?content and part = ?part and parts = "[]"
        and tableData = ?t and grp = "'' abc123 ''"
        and answer = \<open>''{"headers":["A"],"rows":[["1"]]}''\<close>
        and prompt = "''Extract the table''"]
    by blast
  from 1 2 t show ?thesis
    by simp
qed

subsection \<open>Release of the camera\<close>

lemma exit_paths_stop_once:
  assumes "streamRef s = Some stream"
  shows "stopped (stopCamera s) = stopped s @ getTracks stream"
    and "stopped (resetApp s) = stopped s @ getTracks stream"
    and "videoRef s \<Longrightarrow> canvasRef s \<Longrightarrow>
           stopped (capturePhoto (Some imageData) s) = stopped s @ getTracks stream"
  using assms by (simp_all add: stopCamera_def resetApp_def capturePhoto_def)

lemma render_Inr:
  "render s = Inr s' \<Longrightarrow> s' = s\<lparr>videoRef := showCamera s, canvasRef := True\<rparr>"
  by (auto simp add: render_def split: sum.splits)

lemma handler_keeps_unstopped:
  assumes "t \<notin> set (stopped s)"
    and "\<forall>st. streamRef s = Some st \<longrightarrow> t \<notin> set (getTracks st)"
    and "\<forall>st. e = TakePhoto (Some st) \<longrightarrow> t \<notin> set (getTracks st)"
  shows "t \<notin> set (stopped (handler e s))
         \<and> (\<forall>st. streamRef (handler e s) = Some st \<longrightarrow> t \<notin> set (getTracks st))"
proof (cases e)
  case (TakePhoto g)
  with assms show ?thesis
    by (cases g) (simp_all add: startCamera_def Let_def)
next
  case (Capture c)
  with assms show ?thesis
    by (cases c; cases "streamRef s") (simp_all add: capturePhoto_def stopCamera_def)
next
  case Cancel
  with assms show ?thesis
    by (cases "streamRef s") (simp_all add: stopCamera_def)
next
  case (UploadImage r fs)
  with assms show ?thesis
    by (simp add: handleFileUpload_def split: list.splits option.splits)
next
  case (ExtractTableData f)
  with assms show ?thesis
    by (simp add: processImage_def Let_def split: option.splits sum.splits)
next
  case StartOver
  with assms show ?thesis
    by (cases "streamRef s") (simp_all add: resetApp_def stopCamera_def)
qed

lemma session_keeps_unstopped:
  "session s es = Some s' \<Longrightarrow> t \<notin> set (stopped s) \<Longrightarrow>
   \<forall>st. streamRef s = Some st \<longrightarrow> t \<notin> set (getTracks st) \<Longrightarrow>
   \<forall>e\<in>set es. \<forall>st. e = TakePhoto (Some st) \<longrightarrow> t \<notin> set (getTracks st) \<Longrightarrow>
   t \<notin> set (stopped s')"
proof (induction es arbitrary: s)
  case Nil
  then show ?case by simp
next
  case (Cons e es)
  from Cons.prems(1) obtain s1 where r: "render (handler e s) = Inr s1"
    and run: "session s1 es = Some s'"
    by (auto split: if_splits sum.splits)
  from Cons.prems(4) have e: "\<forall>st. e = TakePhoto (Some st) \<longrightarrow> t \<notin> set (getTracks st)"
    and es: "\<forall>e\<in>set es. \<forall>st. e = TakePhoto (Some st) \<longrightarrow> t \<notin> set (getTracks st)"
    by simp_all
  from render_Inr [OF r] have "stopped s1 = stopped (handler e s)"
    and "streamRef s1 = streamRef (handler e s)"
    by simp_all
  with handler_keeps_unstopped [OF Cons.prems(2) Cons.prems(3) e]
  have "t \<notin> set (stopped s1)"
    and "\<forall>st. streamRef s1 = Some st \<longrightarrow> t \<notin> set (getTracks st)"
    by simp_all
  from Cons.IH [OF run this es] show ?case .
qed

lemma camera_view_never_shown_step:
  "\<not> showCamera s \<Longrightarrow> \<not> videoRef s \<Longrightarrow> \<not> showCamera (handler e s)"
  by (cases e)
    (simp_all add: startCamera_def capturePhoto_def stopCamera_def resetApp_def
      handleFileUpload_def processImage_def Let_def
      split: option.splits list.splits sum.splits)

lemma camera_view_never_shown_from:
  "session s es = Some s' \<Longrightarrow> \<not> showCamera s \<Longrightarrow> \<not> videoRef s \<Longrightarrow> \<not> showCamera s'"
proof (induction es arbitrary: s)
  case Nil
  then show ?case by simp
next
  case (Cons e es)
  from Cons.prems(1) obtain s1 where r: "render (handler e s) = Inr s1"
    and run: "session s1 es = Some s'"
    by (auto split: if_splits sum.splits)
  from camera_view_never_shown_step [OF Cons.prems(2) Cons.prems(3), of e] render_Inr [OF r]
  have "\<not> showCamera s1" and "\<not> videoRef s1"
    by simp_all
  from Cons.IH [OF run this] show ?case .
qed

lemma camera_view_never_shown: "session App_init es = Some s \<Longrightarrow> \<not> showCamera s"
  by (rule camera_view_never_shown_from [of App_init es s])
    (simp_all add: App_init_def)

text \<open>
  Claim C4. The claim asks that the tracks of every acquired stream are stopped exactly
  once. Each of \<^verbatim>\<open>stopCamera\<close>, \<^verbatim>\<open>capturePhoto\<close> and \<^verbatim>\<open>resetApp\<close> stops the tracks of the
  stream that \<open>streamRef\<close> holds (\<open>exit_paths_stop_once\<close>), but \<^verbatim>\<open>startCamera\<close> stores a new
  stream over the one held, and the camera view, whose \<^verbatim>\<open>video\<close> element \<^verbatim>\<open>startCamera\<close>
  needs in order to show it, is never shown (\<open>camera_view_never_shown\<close>), so \<^emph>\<open>Take Photo\<close>
  stays on the screen. After two clicks on it, both granted, the first stream is held by
  nothing, and no later event stops its track.
\<close>

theorem overwritten_stream_never_stopped:
  "session App_init [TakePhoto (Some (MediaStream [1])), TakePhoto (Some (MediaStream [2]))]
     = Some (App_init\<lparr>streamRef := Some (MediaStream [2])\<rparr>)
   \<and> (session (App_init\<lparr>streamRef := Some (MediaStream [2])\<rparr>) es = Some s'
        \<and> (\<forall>e\<in>set es. \<forall>st. e = TakePhoto (Some st) \<longrightarrow> 1 \<notin> set (getTracks st))
      \<longrightarrow> 1 \<notin> set (stopped s'))"
proof -
  have "session App_init [TakePhoto (Some (MediaStream [1])), TakePhoto (Some (MediaStream [2]))]
     = Some (App_init\<lparr>streamRef := Some (MediaStream [2])\<rparr>)"
    by (simp add: App_init_def render_def table_view_def startCamera_def has_image_def)
  moreover have "1 \<notin> set (stopped s')"
    if "session (App_init\<lparr>streamRef := Some (MediaStream [2])\<rparr>) es = Some s'"
      and "\<forall>e\<in>set es. \<forall>st. e = TakePhoto (Some st) \<longrightarrow> 1 \<notin> set (getTracks st)"
    using session_keeps_unstopped [OF that(1) _ _ that(2)]
    by (simp add: App_init_def)
  ultimately show ?thesis by blast
qed

theorem overwritten_stream_never_stopped_witness:
  "session App_init
     [TakePhoto (Some (MediaStream [1])), TakePhoto (Some (MediaStream [2])),
      UploadImage (\<lambda>f. Some (''data:'' @ type f @ '';base64,AAAA''))
        [\<lparr>name = ''log.png'', type = ''image/png'', bytes = [0, 0, 0]\<rparr>],
      StartOver]
     = Some (App_init\<lparr>stopped := [2]\<rparr>)
   \<and> 1 \<notin> set (stopped (App_init\<lparr>stopped := [2]\<rparr>))"
proof -
  let ?es = "[UploadImage (\<lambda>f. Some (''data:'' @ type f @ '';base64,AAAA''))
        [\<lparr>name = ''log.png'', type = ''image/png'', bytes = [0, 0, 0]\<rparr>], StartOver]"
  let ?s2 = "App_init\<lparr>streamRef := Some (MediaStream [2])\<rparr>"
  have run: "session ?s2 ?es = Some (App_init\<lparr>stopped := [2]\<rparr>)"
    by (simp add: App_init_def render_def table_view_def has_image_def handleFileUpload_def
        resetApp_def stopCamera_def)
  have fresh: "\<forall>e\<in>set ?es. \<forall>st. e = TakePhoto (Some st) \<longrightarrow> 1 \<notin> set (getTracks st)"
    by simp
  from overwritten_stream_never_stopped [of ?es "App_init\<lparr>stopped := [2]\<rparr>"] run fresh
  have "session App_init [TakePhoto (Some (MediaStream [1])), TakePhoto (Some (MediaStream [2]))]
          = Some ?s2"
    and "1 \<notin> set (stopped (App_init\<lparr>stopped := [2]\<rparr>))"
    by blast+
  with run show ?thesis
    by (simp add: has_image_def render_def table_view_def startCamera_def App_init_def)
qed

text \<open>
  Claim C5. The claim asks that \<^verbatim>\<open>resetApp\<close> stops any active camera stream, in every
  state. After two clicks on \<^emph>\<open>Take Photo\<close>, both granted, and the upload of an image,
  \<^emph>\<open>Start Over\<close> is on the screen and two streams are active. \<^verbatim>\<open>resetApp\<close> nulls the three
  fields and stops the second stream, the one the stream reference holds; the track of the
  first stream is not stopped.
\<close>

theorem resetApp_leaves_overwritten_stream:
  "session App_init
     [TakePhoto (Some (MediaStream [1])), TakePhoto (Some (MediaStream [2])),
      UploadImage (\<lambda>f. Some (''data:'' @ type f @ '';base64,AAAA''))
        [\<lparr>name = ''log.png'', type = ''image/png'', bytes = [0, 0, 0]\<rparr>]]
     = Some (App_init\<lparr>capturedImage := Some ''data:image/png;base64,AAAA'',
                       streamRef := Some (MediaStream [2])\<rparr>)
   \<and> shown (App_init\<lparr>capturedImage := Some ''data:image/png;base64,AAAA'',
                      streamRef := Some (MediaStream [2])\<rparr>) StartOver
   \<and> resetApp (App_init\<lparr>capturedImage := Some ''data:image/png;base64,AAAA'',
                         streamRef := Some (MediaStream [2])\<rparr>)
       = App_init\<lparr>stopped := [2]\<rparr>
   \<and> 1 \<notin> set (stopped (resetApp (App_init\<lparr>capturedImage := Some ''data:image/png;base64,AAAA'',
                         streamRef := Some (MediaStream [2])\<rparr>)))"
  by (simp add: App_init_def render_def table_view_def has_image_def startCamera_def
      handleFileUpload_def resetApp_def stopCamera_def)

end
